theory Spec2Isabelle
  imports Main "HOL-Library.Word"
begin

section \<open>Values exchanged with the outside world\<close>

text \<open>
  A chunk of a response body is a \<open>Uint8Array\<close>: a list of bytes.
\<close>

type_synonym byte = "8 word"
type_synonym chunk = "byte list"

text \<open>
  The value \<open>express.json()\<close> leaves in \<open>req.body\<close>, and the values handed to
  \<open>res.json\<close> and \<open>JSON.stringify\<close>. An object is an association list of its own
  properties (keys distinct, as in every JavaScript object). \<open>JUndefined\<close> is the value
  of \<open>req.body\<close> when no body was parsed. The program writes one number, the literal
  \<open>-1\<close>, and otherwise only tests that a value is no string, array or boolean, so
  numbers are integers here.
\<close>

datatype json =
    JUndefined
  | JNull
  | JBool bool
  | JNum int
  | JStr string
  | JArr "json list"
  | JObj "(string \<times> json) list"

section \<open>The key store (\<open>prisma.apiKey\<close>)\<close>

record apiKey =
  id' :: nat
  key :: string
  description :: "string option"
  isActive :: bool
  createdAt :: nat
  lastUsedAt :: "nat option"

text \<open>
  The table and whether the two operations the server performs on it reject
  (connectivity or any other error of the client library).
\<close>

record store =
  rows :: "apiKey list"
  findUniqueRejects :: bool
  updateRejects :: bool

datatype db_error = StoreUnreachable | RecordNotFound

definition findUnique :: "store \<Rightarrow> string \<Rightarrow> db_error + apiKey option" where
  "findUnique db k =
     (if findUniqueRejects db then Inl StoreUnreachable
      else Inr (find (\<lambda>r. key r = k) (rows db)))"

definition touch :: "nat \<Rightarrow> nat \<Rightarrow> apiKey \<Rightarrow> apiKey" where
  "touch i now r = (if id' r = i then r\<lparr>lastUsedAt := Some now\<rparr> else r)"

text \<open>\<open>prisma.apiKey.update({where: {id}, data: {lastUsedAt: new Date()}})\<close>\<close>

definition update_lastUsedAt :: "store \<Rightarrow> nat \<Rightarrow> nat \<Rightarrow> db_error + store" where
  "update_lastUsedAt db i now =
     (if updateRejects db then Inl StoreUnreachable
      else if \<not> list_ex (\<lambda>r. id' r = i) (rows db) then Inl RecordNotFound
      else Inr (db\<lparr>rows := map (touch i now) (rows db)\<rparr>))"

section \<open>The response to the client (\<open>res\<close>)\<close>

text \<open>
  \<open>sentBody\<close> is the byte stream written with \<open>res.write\<close>, in order; \<open>sentJson\<close> is
  the value sent with \<open>res.json\<close>. \<open>resHeaders\<close> holds the headers the program sets
  with \<open>res.setHeader\<close>, under the names it gives them. The headers the framework
  writes or rewrites by itself when it sends a body (the \<open>Content-Type\<close> of \<open>res.json\<close>
  and the charset it appends to one already set, \<open>Content-Length\<close>, \<open>ETag\<close>) are not
  part of it.
\<close>

record res =
  statusCode :: nat
  resHeaders :: "(string \<times> string) list"
  headersSent :: bool
  writableEnded :: bool
  sentBody :: "byte list"
  sentJson :: "json option"

definition fresh_res :: res where
  "fresh_res = \<lparr>statusCode = 200, resHeaders = [], headersSent = False,
     writableEnded = False, sentBody = [], sentJson = None\<rparr>"

definition status :: "nat \<Rightarrow> res \<Rightarrow> res" where
  "status c r = r\<lparr>statusCode := c\<rparr>"

fun setHeader :: "string \<Rightarrow> string \<Rightarrow> (string \<times> string) list \<Rightarrow> (string \<times> string) list" where
  "setHeader h v [] = [(h, v)]"
| "setHeader h v ((k, w) # hs) = (if k = h then (h, v) # hs else (k, w) # setHeader h v hs)"

definition res_setHeader :: "string \<Rightarrow> string \<Rightarrow> res \<Rightarrow> res" where
  "res_setHeader h v r = r\<lparr>resHeaders := setHeader h v (resHeaders r)\<rparr>"

text \<open>\<open>res.end()\<close>: a second call on a finished response changes nothing.\<close>

definition end' :: "res \<Rightarrow> res" where
  "end' r = r\<lparr>headersSent := True, writableEnded := True\<rparr>"

text \<open>
  \<open>res.json(v)\<close>: sends the value as the whole body and finishes the response. It
  calls no \<open>res.setHeader\<close> of the program, so \<open>resHeaders\<close> stays as it is.
\<close>

definition json_send :: "json \<Rightarrow> res \<Rightarrow> res" where
  "json_send v r = end' (r\<lparr>sentJson := Some v\<rparr>)"

section \<open>\<open>validateApiKey\<close>\<close>

text \<open>
  The middleware returns the response, the store, and whether it called \<open>next()\<close>.
  \<open>authHeader\<close> is \<open>req.headers.authorization\<close>; \<open>now\<close> is \<open>new Date()\<close>.
\<close>

definition startsWith :: "string \<Rightarrow> string \<Rightarrow> bool" where
  "startsWith s p = (take (length p) s = p)"

definition validateApiKey :: "string option \<Rightarrow> nat \<Rightarrow> store \<Rightarrow> res \<Rightarrow> res \<times> store \<times> bool" where
  "validateApiKey authHeader now db r =
     (case authHeader of
        None \<Rightarrow> (json_send (JObj [(''error'', JStr ''Missing or invalid API key'')]) (status 401 r), db, False)
      | Some h \<Rightarrow>
          if h = [] \<or> \<not> startsWith h ''Bearer '' then
            (json_send (JObj [(''error'', JStr ''Missing or invalid API key'')]) (status 401 r), db, False)
          else
            let apiKey = drop 7 h in
            (case findUnique db apiKey of
               Inl e \<Rightarrow> (json_send (JObj [(''error'', JStr ''Internal server error'')]) (status 500 r), db, False)
             | Inr None \<Rightarrow>
                 (json_send (JObj [(''error'', JStr ''Invalid or inactive API key'')]) (status 401 r), db, False)
             | Inr (Some k) \<Rightarrow>
                 if \<not> isActive k then
                   (json_send (JObj [(''error'', JStr ''Invalid or inactive API key'')]) (status 401 r), db, False)
                 else
                   (case update_lastUsedAt db (id' k) now of
                      Inl e \<Rightarrow> (json_send (JObj [(''error'', JStr ''Internal server error'')]) (status 500 r), db, False)
                    | Inr db' \<Rightarrow> (r, db', True))))"

section \<open>The validation schemas\<close>

text \<open>
  An issue of the validation library: where it arose, what kind it is, and its message.
  A path segment is a property name or an array index.
\<close>

datatype seg = Key string | Index nat

datatype issue_code = invalid_type | invalid_enum_value | too_small | too_big

record issue =
  code :: issue_code
  path :: "seg list"
  message :: string

text \<open>
  The messages the schemas do not give themselves come from the library's error map,
  which is not part of this repository: it is the parameter \<open>em\<close> below, from the kind
  of issue and the offending value to the text.
\<close>

type_synonym error_map = "issue_code \<Rightarrow> json \<Rightarrow> string"

definition mk_issue :: "issue_code \<Rightarrow> seg list \<Rightarrow> string \<Rightarrow> issue" where
  "mk_issue c p m = \<lparr>code = c, path = p, message = m\<rparr>"

text \<open>\<open>obj[k]\<close>: the property, \<open>undefined\<close> when the object has none of that name.\<close>

definition jprop :: "json \<Rightarrow> string \<Rightarrow> json" where
  "jprop v k =
     (case v of
        JObj ps \<Rightarrow> (case map_of ps k of None \<Rightarrow> JUndefined | Some x \<Rightarrow> x)
      | _ \<Rightarrow> JUndefined)"

definition issues_of :: "issue list + 'a \<Rightarrow> issue list" where
  "issues_of r = (case r of Inl is \<Rightarrow> is | Inr _ \<Rightarrow> [])"

record message_t =
  role :: string
  content :: string

record chatRequest =
  messages :: "message_t list"
  stream :: bool

text \<open>\<open>z.enum(['system', 'user', 'assistant'])\<close>\<close>

definition parse_role :: "error_map \<Rightarrow> seg list \<Rightarrow> json \<Rightarrow> issue list + string" where
  "parse_role em p v =
     (case v of
        JStr s \<Rightarrow>
          if s \<in> set [''system'', ''user'', ''assistant''] then Inr s
          else Inl [mk_issue invalid_enum_value p (em invalid_enum_value v)]
      | _ \<Rightarrow> Inl [mk_issue invalid_type p (em invalid_type v)])"

text \<open>\<open>z.string().min(1, 'Message content cannot be empty')\<close>\<close>

definition parse_content :: "error_map \<Rightarrow> seg list \<Rightarrow> json \<Rightarrow> issue list + string" where
  "parse_content em p v =
     (case v of
        JStr s \<Rightarrow>
          if length s < 1 then Inl [mk_issue too_small p ''Message content cannot be empty'']
          else Inr s
      | _ \<Rightarrow> Inl [mk_issue invalid_type p (em invalid_type v)])"

text \<open>
  \<open>messageSchema\<close>: an object whose two properties are both checked; properties the
  schema does not name are dropped from the result.
\<close>

definition messageSchema :: "error_map \<Rightarrow> seg list \<Rightarrow> json \<Rightarrow> issue list + message_t" where
  "messageSchema em p v =
     (case v of
        JObj ps \<Rightarrow>
          (let r = parse_role em (p @ [Key ''role'']) (jprop v ''role'');
               c = parse_content em (p @ [Key ''content'']) (jprop v ''content'')
           in case (r, c) of
                (Inr r', Inr c') \<Rightarrow> Inr \<lparr>role = r', content = c'\<rparr>
              | _ \<Rightarrow> Inl (issues_of r @ issues_of c))
      | _ \<Rightarrow> Inl [mk_issue invalid_type p (em invalid_type v)])"

text \<open>The values of a list of results when every one succeeded.\<close>

fun collect :: "(issue list + 'a) list \<Rightarrow> 'a list option" where
  "collect [] = Some []"
| "collect (Inl _ # _) = None"
| "collect (Inr x # rs) = (case collect rs of None \<Rightarrow> None | Some xs \<Rightarrow> Some (x # xs))"

text \<open>
  \<open>z.array(messageSchema).min(1, ...).max(100, ...)\<close>: the two length checks and every
  element are checked, and all their issues are reported together.
\<close>

definition parse_messages :: "error_map \<Rightarrow> seg list \<Rightarrow> json \<Rightarrow> issue list + message_t list" where
  "parse_messages em p v =
     (case v of
        JArr xs \<Rightarrow>
          (let small = (if length xs < 1 then [mk_issue too_small p ''At least one message is required''] else []);
               big = (if length xs > 100 then [mk_issue too_big p ''Too many messages (max 100)''] else []);
               rs = map (\<lambda>i. messageSchema em (p @ [Index i]) (xs ! i)) [0..<length xs]
           in case (small @ big, collect rs) of
                ([], Some ms) \<Rightarrow> Inr ms
              | (is, _) \<Rightarrow> Inl (is @ concat (map issues_of rs)))
      | _ \<Rightarrow> Inl [mk_issue invalid_type p (em invalid_type v)])"

text \<open>\<open>z.boolean().optional().default(false)\<close>\<close>

definition parse_stream :: "error_map \<Rightarrow> seg list \<Rightarrow> json \<Rightarrow> issue list + bool" where
  "parse_stream em p v =
     (case v of
        JUndefined \<Rightarrow> Inr False
      | JBool b \<Rightarrow> Inr b
      | _ \<Rightarrow> Inl [mk_issue invalid_type p (em invalid_type v)])"

text \<open>\<open>chatRequestSchema.safeParse(req.body)\<close>\<close>

definition chatRequestSchema :: "error_map \<Rightarrow> json \<Rightarrow> issue list + chatRequest" where
  "chatRequestSchema em body =
     (case body of
        JObj ps \<Rightarrow>
          (let m = parse_messages em [Key ''messages''] (jprop body ''messages'');
               s = parse_stream em [Key ''stream''] (jprop body ''stream'')
           in case (m, s) of
                (Inr m', Inr s') \<Rightarrow> Inr \<lparr>messages = m', stream = s'\<rparr>
              | _ \<Rightarrow> Inl (issues_of m @ issues_of s))
      | _ \<Rightarrow> Inl [mk_issue invalid_type [] (em invalid_type body)])"

text \<open>\<open>err.path.join('.')\<close>: indices are written in decimal.\<close>

fun show_nat :: "nat \<Rightarrow> string" where
  "show_nat n =
     (if n < 10 then [''0123456789'' ! n]
      else show_nat (n div 10) @ [''0123456789'' ! (n mod 10)])"

declare show_nat.simps [simp del]

definition show_seg :: "seg \<Rightarrow> string" where
  "show_seg s = (case s of Key k \<Rightarrow> k | Index i \<Rightarrow> show_nat i)"

fun join :: "string \<Rightarrow> string list \<Rightarrow> string" where
  "join sep [] = []"
| "join sep [x] = x"
| "join sep (x # y # ys) = x @ sep @ join sep (y # ys)"

definition detail :: "issue \<Rightarrow> json" where
  "detail err =
     JObj [(''field'', JStr (join ''.'' (map show_seg (path err)))),
           (''message'', JStr (message err))]"

section \<open>The backend call and the two ends of the relay\<close>

text \<open>\<open>process.env\<close>: the two variables the handler reads.\<close>

record env =
  OLLAMA_URL :: "string option"
  OLLAMA_MODEL :: "string option"

text \<open>\<open>process.env.X || d\<close>: the default when the variable is unset or empty.\<close>

definition or_default :: "string option \<Rightarrow> string \<Rightarrow> string" where
  "or_default v d = (case v of None \<Rightarrow> d | Some x \<Rightarrow> if x = [] then d else x)"

text \<open>
  The arguments of \<open>fetch\<close>; \<open>reqBody\<close> is the value given to \<open>JSON.stringify\<close>.
\<close>

record fetch_request =
  url :: string
  reqMethod :: string
  reqHeaders :: "(string \<times> string) list"
  reqBody :: json

text \<open>
  What one \<open>reader.read()\<close> gives: a chunk, the end of the stream, or a rejection
  (also the one an abort of the request causes).
\<close>

datatype read_result = Chunk chunk | Done | ReadError

text \<open>
  The backend's response. Header names are lower case, as \<open>Headers\<close> keeps them. The
  body, when there is one, is the results of the successive reads; a read past the end
  of the list never settles.
\<close>

record fetch_response =
  fstatus :: nat
  fheaders :: "(string \<times> string) list"
  fbody :: "read_result list option"

text \<open>A value thrown: an \<open>Error\<close> with its \<open>name\<close>, or anything else.\<close>

datatype thrown = ErrorNamed string | NotAnError

datatype fetch_outcome = Resolved fetch_response | Rejected thrown

text \<open>
  What one \<open>res.write(value)\<close> does: it returns \<open>true\<close>; or it returns \<open>false\<close>
  (buffer full), and \<open>drain\<close> is later emitted or never is; or it throws. The chunk
  is taken by the connection in both returning cases.
\<close>

datatype write_outcome = Flushed | Queued bool | WriteThrows

datatype event =
    EvRead read_result
  | EvWrite chunk bool
  | EvWriteThrows chunk
  | EvWaitDrain
  | EvDrain
  | EvEnd
  | EvReleaseLock

text \<open>
  One proxy session: the response, the calls made to the backend, whether a lock on the
  body's reader is held, whether the handler's promise has settled, and the relay's
  events in order.
\<close>

record session =
  conn :: res
  calls :: "fetch_request list"
  readerLocked :: bool
  settled :: bool
  trace :: "event list"

definition new_session :: "res \<Rightarrow> session" where
  "new_session r = \<lparr>conn = r, calls = [], readerLocked = False, settled = True, trace = []\<rparr>"

definition res_write :: "chunk \<Rightarrow> res \<Rightarrow> res" where
  "res_write c r = r\<lparr>headersSent := True, sentBody := sentBody r @ c\<rparr>"

section \<open>\<open>readStream\<close>\<close>

datatype loop_exit = Broke | Threw | Suspended

text \<open>
  The \<open>while (true)\<close> loop: \<open>w n\<close> is what the \<open>n\<close>-th write does. The result is how
  the loop was left, the response, and the events.
\<close>

fun relay_loop :: "(nat \<Rightarrow> write_outcome) \<Rightarrow> read_result list \<Rightarrow> nat \<Rightarrow> res \<Rightarrow> loop_exit \<times> res \<times> event list" where
  "relay_loop w [] n r = (Suspended, r, [])"
| "relay_loop w (Done # rs) n r = (Broke, r, [EvRead Done])"
| "relay_loop w (ReadError # rs) n r = (Threw, r, [EvRead ReadError])"
| "relay_loop w (Chunk c # rs) n r =
     (case w n of
        Flushed \<Rightarrow>
          (case relay_loop w rs (Suc n) (res_write c r) of
             (x, r', tr) \<Rightarrow> (x, r', EvRead (Chunk c) # EvWrite c True # tr))
      | Queued drains \<Rightarrow>
          if drains then
            (case relay_loop w rs (Suc n) (res_write c r) of
               (x, r', tr) \<Rightarrow> (x, r', EvRead (Chunk c) # EvWrite c False # EvWaitDrain # EvDrain # tr))
          else (Suspended, res_write c r, [EvRead (Chunk c), EvWrite c False, EvWaitDrain])
      | WriteThrows \<Rightarrow> (Threw, r, [EvRead (Chunk c), EvWriteThrows c]))"

definition readStream :: "(nat \<Rightarrow> write_outcome) \<Rightarrow> read_result list \<Rightarrow> session \<Rightarrow> session" where
  "readStream w src s =
     (case relay_loop w src 0 (conn s) of
        (Suspended, r, tr) \<Rightarrow> s\<lparr>conn := r, settled := False, trace := trace s @ tr\<rparr>
      | (Broke, r, tr) \<Rightarrow>
          s\<lparr>conn := end' r, readerLocked := False, trace := trace s @ tr @ [EvEnd, EvReleaseLock]\<rparr>
      | (Threw, r, tr) \<Rightarrow>
          s\<lparr>conn := end' (if \<not> headersSent r
                            then json_send (JObj [(''error'', JStr ''Error streaming response'')]) (status 502 r)
                            else r),
            readerLocked := False, trace := trace s @ tr @ [EvEnd, EvReleaseLock]\<rparr>)"

section \<open>The \<open>/chat\<close> handler\<close>

definition headersToForward :: "string list" where
  "headersToForward = [''content-type'', ''transfer-encoding'', ''cache-control'', ''content-encoding'']"

text \<open>One turn of the \<open>forEach\<close>: \<open>if (value)\<close> skips a missing header and an empty one.\<close>

definition forward_one :: "fetch_response \<Rightarrow> res \<Rightarrow> string \<Rightarrow> res" where
  "forward_one response r header =
     (case map_of (fheaders response) header of
        None \<Rightarrow> r
      | Some v \<Rightarrow> if v \<noteq> [] then res_setHeader header v r else r)"

definition forward_headers :: "fetch_response \<Rightarrow> res \<Rightarrow> res" where
  "forward_headers response r = foldl (forward_one response) r headersToForward"

definition message_json :: "message_t \<Rightarrow> json" where
  "message_json m = JObj [(''role'', JStr (role m)), (''content'', JStr (content m))]"

definition backend_request :: "env \<Rightarrow> chatRequest \<Rightarrow> fetch_request" where
  "backend_request e d =
     (let ollamaUrl = or_default (OLLAMA_URL e) ''http://localhost:11434'';
          model = or_default (OLLAMA_MODEL e) ''nemotron-3-nano''
      in \<lparr>url = ollamaUrl @ ''/api/chat'',
          reqMethod = ''POST'',
          reqHeaders = [(''Content-Type'', ''application/json'')],
          reqBody = JObj [(''model'', JStr model),
                          (''messages'', JArr (map message_json (messages d))),
                          (''stream'', JBool (stream d)),
                          (''keep_alive'', JNum (- 1))]\<rparr>)"

definition isAbortError :: "thrown \<Rightarrow> bool" where
  "isAbortError e = (case e of ErrorNamed n \<Rightarrow> n = ''AbortError'' | NotAnError \<Rightarrow> False)"

text \<open>
  The handler proper. The listener it puts on the request's \<open>close\<close> aborts the signal
  given to \<open>fetch\<close>; what that does is in the outcomes: a call rejected with an error
  named \<open>AbortError\<close>, or a read of the body that rejects.
\<close>

definition chat :: "error_map \<Rightarrow> env \<Rightarrow> (fetch_request \<Rightarrow> fetch_outcome) \<Rightarrow> (nat \<Rightarrow> write_outcome) \<Rightarrow> json \<Rightarrow> session \<Rightarrow> session" where
  "chat em e fetch w body s =
     (case chatRequestSchema em body of
        Inl issues \<Rightarrow>
          s\<lparr>conn := json_send (JObj [(''error'', JStr ''Validation failed''),
                                     (''details'', JArr (map detail issues))])
                      (status 400 (conn s))\<rparr>
      | Inr d \<Rightarrow>
          (let rq = backend_request e d;
               s1 = s\<lparr>calls := calls s @ [rq]\<rparr>
           in case fetch rq of
                Rejected err \<Rightarrow>
                  if isAbortError err then
                    (if \<not> headersSent (conn s1) then s1\<lparr>conn := end' (status 499 (conn s1))\<rparr> else s1)
                  else
                    (if \<not> headersSent (conn s1)
                     then s1\<lparr>conn := json_send (JObj [(''error'', JStr ''Failed to connect to Ollama'')])
                                       (status 502 (conn s1))\<rparr>
                     else s1)
              | Resolved response \<Rightarrow>
                  (let r1 = status (fstatus response) (conn s1);
                       r2 = (if stream d then res_setHeader ''X-Accel-Buffering'' ''no'' r1 else r1);
                       r3 = forward_headers response r2
                   in case fbody response of
                        Some src \<Rightarrow> readStream w src (s1\<lparr>conn := r3, readerLocked := True\<rparr>)
                      | None \<Rightarrow> s1\<lparr>conn := end' r3\<rparr>)))"

text \<open>\<open>app.post('/chat', validateApiKey, ...)\<close>: the handler runs when the middleware calls \<open>next()\<close>.\<close>

record request =
  authorization :: "string option"
  body :: json

definition post_chat :: "error_map \<Rightarrow> env \<Rightarrow> (fetch_request \<Rightarrow> fetch_outcome) \<Rightarrow> (nat \<Rightarrow> write_outcome) \<Rightarrow> nat \<Rightarrow> request \<Rightarrow> store \<Rightarrow> session \<times> store" where
  "post_chat em e fetch w now req db =
     (case validateApiKey (authorization req) now db fresh_res of
        (r, db', proceed) \<Rightarrow>
          if proceed then (chat em e fetch w (body req) (new_session r), db')
          else (new_session r, db'))"

text \<open>
  \<open>app.use(express.json())\<close> runs before every route. It either rejects the request
  with an error that carries a status (400 for malformed JSON, 413 for a body over the
  limit, 415 for a charset it does not support), or leaves the parsed value in
  \<open>req.body\<close>: the empty object or \<open>undefined\<close> when the request carried no JSON.
\<close>

datatype parse_error = MalformedJson | EntityTooLarge | UnsupportedCharset

definition parse_error_status :: "parse_error \<Rightarrow> nat" where
  "parse_error_status err =
     (case err of MalformedJson \<Rightarrow> 400 | EntityTooLarge \<Rightarrow> 413 | UnsupportedCharset \<Rightarrow> 415)"

datatype parsed_body = ParserRejects parse_error | Parsed json

record http_request =
  hAuthorization :: "string option"
  hBody :: parsed_body

text \<open>
  The application on \<open>POST /chat\<close>: an error of the parser goes to the framework's final
  handler, which answers with the error's status (the page it sends is left out) and
  runs neither the middleware nor the handler; otherwise the route runs.
\<close>

definition app_post_chat :: "error_map \<Rightarrow> env \<Rightarrow> (fetch_request \<Rightarrow> fetch_outcome) \<Rightarrow> (nat \<Rightarrow> write_outcome) \<Rightarrow> nat \<Rightarrow> http_request \<Rightarrow> store \<Rightarrow> session \<times> store" where
  "app_post_chat em e fetch w now rq db =
     (case hBody rq of
        ParserRejects err \<Rightarrow> (new_session (end' (status (parse_error_status err) fresh_res)), db)
      | Parsed b \<Rightarrow> post_chat em e fetch w now \<lparr>authorization = hAuthorization rq, body = b\<rparr> db)"

section \<open>Concrete sessions\<close>

text \<open>
  A store with one active and one deactivated key, the same store when its updates
  fail, and a backend that answers every call with a two-chunk stream.
\<close>

definition key_live :: apiKey where
  "key_live = \<lparr>id' = 1, key = ''live789'', description = None, isActive = True,
     createdAt = 0, lastUsedAt = None\<rparr>"

definition key_abc :: apiKey where
  "key_abc = \<lparr>id' = 2, key = ''abc123'', description = Some ''retired'', isActive = False,
     createdAt = 0, lastUsedAt = None\<rparr>"

definition store_ok :: store where
  "store_ok = \<lparr>rows = [key_live, key_abc], findUniqueRejects = False, updateRejects = False\<rparr>"


definition em0 :: error_map where
  "em0 c v = (if v = JUndefined then ''Required'' else ''Invalid input'')"

definition env0 :: env where
  "env0 = \<lparr>OLLAMA_URL = None, OLLAMA_MODEL = None\<rparr>"

definition response_ok :: fetch_response where
  "response_ok = \<lparr>fstatus = 200,
     fheaders = [(''content-type'', ''application/x-ndjson''), (''date'', ''Mon, 02 Nov 2026''),
                 (''cache-control'', [])],
     fbody = Some [Chunk [1, 2], Chunk [3], Done]\<rparr>"

definition backend_ok :: "fetch_request \<Rightarrow> fetch_outcome" where
  "backend_ok rq = Resolved response_ok"

definition sink_ok :: "nat \<Rightarrow> write_outcome" where
  "sink_ok n = (if n = 0 then Queued True else Flushed)"

definition body_hi :: json where
  "body_hi = JObj [(''messages'', JArr [JObj [(''role'', JStr ''user''), (''content'', JStr ''hi'')]])]"

text \<open>
  A request without credentials whose body is not JSON, the request of the deactivated
  key, and an environment that sets both variables.
\<close>

definition request_malformed :: http_request where
  "request_malformed = \<lparr>hAuthorization = None, hBody = ParserRejects MalformedJson\<rparr>"

definition request_abc :: http_request where
  "request_abc = \<lparr>hAuthorization = Some ''Bearer abc123'', hBody = Parsed body_hi\<rparr>"

definition env_set :: env where
  "env_set = \<lparr>OLLAMA_URL = Some ''http://ollama:11434'', OLLAMA_MODEL = Some ''llama3''\<rparr>"

section \<open>Reading the relay's events\<close>

text \<open>The chunks read from the backend and the chunks handed to the client, in order.\<close>

fun read_chunks :: "event list \<Rightarrow> chunk list" where
  "read_chunks [] = []"
| "read_chunks (EvRead (Chunk c) # tr) = c # read_chunks tr"
| "read_chunks (_ # tr) = read_chunks tr"

fun written_chunks :: "event list \<Rightarrow> chunk list" where
  "written_chunks [] = []"
| "written_chunks (EvWrite c _ # tr) = c # written_chunks tr"
| "written_chunks (_ # tr) = written_chunks tr"

text \<open>
  No read while blocked: after a write that returned \<open>false\<close> the relay is blocked until
  \<open>drain\<close>; the flag is whether it is blocked before the first event.
\<close>

fun reads_wait_for_drain :: "bool \<Rightarrow> event list \<Rightarrow> bool" where
  "reads_wait_for_drain b [] = True"
| "reads_wait_for_drain b (EvRead x # tr) = (\<not> b \<and> reads_wait_for_drain b tr)"
| "reads_wait_for_drain b (EvWrite c ok # tr) = reads_wait_for_drain (\<not> ok) tr"
| "reads_wait_for_drain b (EvDrain # tr) = reads_wait_for_drain False tr"
| "reads_wait_for_drain b (_ # tr) = reads_wait_for_drain b tr"

text \<open>
  The number of chunks in the relay's hands: a chunk is held from its read until its
  write returns \<open>true\<close> or, after a write that returned \<open>false\<close>, until \<open>drain\<close>.
\<close>

fun held_after :: "nat \<Rightarrow> event \<Rightarrow> nat" where
  "held_after h (EvRead (Chunk c)) = Suc h"
| "held_after h (EvWrite c ok) = (if ok then h - 1 else h)"
| "held_after h EvDrain = h - 1"
| "held_after h _ = h"

text \<open>The largest number of chunks held at any point of the events, starting from \<open>h\<close>.\<close>

fun peak_held :: "nat \<Rightarrow> event list \<Rightarrow> nat" where
  "peak_held h [] = h"
| "peak_held h (e # tr) = max h (peak_held (held_after h e) tr)"

text \<open>The writes of a sink that never throws and always drains.\<close>

definition writes_succeed :: "(nat \<Rightarrow> write_outcome) \<Rightarrow> nat \<Rightarrow> bool" where
  "writes_succeed w k = list_all (\<lambda>i. w i = Flushed \<or> w i = Queued True) [0..<k]"

text \<open>A sink whose second write throws, and a stream of two chunks.\<close>

definition sink_breaks :: "nat \<Rightarrow> write_outcome" where
  "sink_breaks n = (if n = 1 then WriteThrows else Flushed)"

definition two_chunks :: "read_result list" where
  "two_chunks = [Chunk [1, 2], Chunk [3], Done]"

definition relaying :: session where
  "relaying = \<lparr>conn = fresh_res, calls = [], readerLocked = True, settled = True, trace = []\<rparr>"

text \<open>
  A backend call cancelled by the client's disconnect, one that cannot connect, and the
  request \<open>body_hi\<close> with a \<open>model\<close> and another property added by the client.
\<close>

definition backend_aborted :: "fetch_request \<Rightarrow> fetch_outcome" where
  "backend_aborted rq = Rejected (ErrorNamed ''AbortError'')"

definition backend_down :: "fetch_request \<Rightarrow> fetch_outcome" where
  "backend_down rq = Rejected (ErrorNamed ''TypeError'')"

definition body_hi_model :: json where
  "body_hi_model = JObj [(''model'', JStr ''other-model''),
     (''messages'', JArr [JObj [(''role'', JStr ''user''), (''content'', JStr ''hi'')]]),
     (''keep_alive'', JNum 0)]"

definition request_hi :: chatRequest where
  "request_hi = \<lparr>messages = [\<lparr>role = ''user'', content = ''hi''\<rparr>], stream = False\<rparr>"

section \<open>What the specification asks of a request body\<close>















definition body_empty :: json where
  "body_empty = JObj [(''messages'', JArr [])]"


section \<open>The authenticator\<close>


lemma validateApiKey_rejects:
  assumes "authHeader = None
     \<or> (\<exists>h. authHeader = Some h \<and> \<not> startsWith h ''Bearer '')
     \<or> (\<exists>t. authHeader = Some (''Bearer '' @ t)
            \<and> (findUnique db t = Inr None \<or> (\<exists>k. findUnique db t = Inr (Some k) \<and> \<not> isActive k)))"
  shows "\<exists>v. validateApiKey authHeader now db r = (json_send v (status 401 r), db, False)"
  using assms by (auto simp: validateApiKey_def startsWith_def)

text \<open>
  Whatever the store does, a request the middleware does not let through makes no call
  to the backend.
\<close>

lemma no_next_no_call:
  assumes "\<not> snd (snd (validateApiKey (authorization req) now db fresh_res))"
  shows "calls (fst (post_chat em e fetch w now req db)) = []"
  using assms by (auto simp: post_chat_def new_session_def split: prod.splits)

lemma post_chat_unauthorized:
  assumes "authorization req = None
     \<or> (\<exists>h. authorization req = Some h \<and> \<not> startsWith h ''Bearer '')
     \<or> (\<exists>t. authorization req = Some (''Bearer '' @ t)
            \<and> (findUnique db t = Inr None \<or> (\<exists>k. findUnique db t = Inr (Some k) \<and> \<not> isActive k)))"
  shows "statusCode (conn (fst (post_chat em e fetch w now req db))) = 401
       \<and> calls (fst (post_chat em e fetch w now req db)) = []
       \<and> \<not> snd (snd (validateApiKey (authorization req) now db fresh_res))"
proof -
  obtain v where "validateApiKey (authorization req) now db fresh_res
      = (json_send v (status 401 fresh_res), db, False)"
    using validateApiKey_rejects[OF assms] by blast
  then show ?thesis
    by (simp add: post_chat_def new_session_def json_send_def end'_def status_def)
qed

text \<open>
  C2, as the code has it: take a \<open>POST /chat\<close> request with no \<open>Authorization\<close>
  header, with one that does not start with \<open>Bearer \<close>, or with a token for which the
  store's lookup finds no record or a record that is not active. No call to the backend
  is made. When the JSON parser accepted the body, the answer is 401 and the middleware
  does not call \<open>next()\<close>; when the parser rejected the body, the answer is the status of
  the parser's error, given before the middleware runs.
\<close>

theorem unauthorized_parsed_request_gets_401:
  assumes "hAuthorization rq = None
     \<or> (\<exists>h. hAuthorization rq = Some h \<and> \<not> startsWith h ''Bearer '')
     \<or> (\<exists>t. hAuthorization rq = Some (''Bearer '' @ t)
            \<and> (findUnique db t = Inr None \<or> (\<exists>k. findUnique db t = Inr (Some k) \<and> \<not> isActive k)))"
  shows "statusCode (conn (fst (app_post_chat em e fetch w now rq db)))
           = (case hBody rq of
                Parsed b \<Rightarrow> 401
              | ParserRejects err \<Rightarrow>
                  (case err of MalformedJson \<Rightarrow> 400 | EntityTooLarge \<Rightarrow> 413 | UnsupportedCharset \<Rightarrow> 415))
       \<and> calls (fst (app_post_chat em e fetch w now rq db)) = []
       \<and> \<not> snd (snd (validateApiKey (hAuthorization rq) now db fresh_res))"
proof (cases "hBody rq")
  case (ParserRejects err)
  obtain v where "validateApiKey (hAuthorization rq) now db fresh_res
      = (json_send v (status 401 fresh_res), db, False)"
    using validateApiKey_rejects[OF assms] by blast
  with ParserRejects show ?thesis
    by (cases err)
       (simp_all add: app_post_chat_def parse_error_status_def new_session_def end'_def status_def)
next
  case (Parsed b)
  have "authorization \<lparr>authorization = hAuthorization rq, body = b\<rparr> = None
     \<or> (\<exists>h. authorization \<lparr>authorization = hAuthorization rq, body = b\<rparr> = Some h
            \<and> \<not> startsWith h ''Bearer '')
     \<or> (\<exists>t. authorization \<lparr>authorization = hAuthorization rq, body = b\<rparr> = Some (''Bearer '' @ t)
            \<and> (findUnique db t = Inr None \<or> (\<exists>k. findUnique db t = Inr (Some k) \<and> \<not> isActive k)))"
    using assms by simp
  from post_chat_unauthorized[OF this, of em e fetch w now] Parsed show ?thesis
    by (simp add: app_post_chat_def)
qed

lemma findUnique_abc: "findUnique store_ok ''abc123'' = Inr (Some key_abc)"
  by (simp add: findUnique_def store_ok_def key_abc_def key_live_def)

theorem unauthorized_parsed_request_gets_401_witness:
  "findUnique store_ok ''abc123'' = Inr (Some key_abc) \<and> \<not> isActive key_abc
   \<and> hAuthorization request_abc = Some (''Bearer '' @ ''abc123'')
   \<and> hBody request_abc = Parsed body_hi
   \<and> statusCode (conn (fst (app_post_chat em0 env0 backend_ok sink_ok 7 request_abc store_ok))) = 401
   \<and> calls (fst (app_post_chat em0 env0 backend_ok sink_ok 7 request_abc store_ok)) = []"
proof -
  have inactive: "\<not> isActive key_abc" by (simp add: key_abc_def)
  have hdr: "hAuthorization request_abc = Some (''Bearer '' @ ''abc123'')"
    by (simp add: request_abc_def)
  have bdy: "hBody request_abc = Parsed body_hi"
    by (simp add: request_abc_def)
  have hyp: "hAuthorization request_abc = None
     \<or> (\<exists>h. hAuthorization request_abc = Some h \<and> \<not> startsWith h ''Bearer '')
     \<or> (\<exists>t. hAuthorization request_abc = Some (''Bearer '' @ t)
            \<and> (findUnique store_ok t = Inr None
                \<or> (\<exists>k. findUnique store_ok t = Inr (Some k) \<and> \<not> isActive k)))"
    using findUnique_abc inactive hdr by blast
  show ?thesis
    using unauthorized_parsed_request_gets_401[OF hyp, of em0 env0 backend_ok sink_ok 7]
      findUnique_abc inactive hdr bdy
    by simp
qed

text \<open>
  The claim as the specification states it (every such request is answered 401) fails:
  a request with no \<open>Authorization\<close> header whose body is not JSON is answered 400 by
  the parser.
\<close>

theorem unparsed_body_gets_400_counterexample:
  "hAuthorization request_malformed = None
   \<and> statusCode (conn (fst (app_post_chat em0 env0 backend_ok sink_ok 7 request_malformed store_ok))) = 400
   \<and> statusCode (conn (fst (app_post_chat em0 env0 backend_ok sink_ok 7 request_malformed store_ok))) \<noteq> 401"
  by (simp add: request_malformed_def app_post_chat_def parse_error_status_def new_session_def
      end'_def status_def fresh_res_def)





section \<open>The stream relay\<close>

lemma relay_loop_Chunk_cases:
  assumes "relay_loop w (Chunk c # rs) n r = (x, r', tr)"
  obtains
    (flushed) tr1 where "w n = Flushed" "relay_loop w rs (Suc n) (res_write c r) = (x, r', tr1)"
      "tr = EvRead (Chunk c) # EvWrite c True # tr1"
  | (drained) tr1 where "w n = Queued True" "relay_loop w rs (Suc n) (res_write c r) = (x, r', tr1)"
      "tr = EvRead (Chunk c) # EvWrite c False # EvWaitDrain # EvDrain # tr1"
  | (stuck) "w n = Queued False" "x = Suspended" "r' = res_write c r"
      "tr = [EvRead (Chunk c), EvWrite c False, EvWaitDrain]"
  | (thrown) "w n = WriteThrows" "x = Threw" "r' = r" "tr = [EvRead (Chunk c), EvWriteThrows c]"
proof (cases "w n")
  case Flushed
  with assms flushed show ?thesis by (auto split: prod.splits)
next
  case (Queued d)
  show ?thesis
  proof (cases d)
    case True
    with Queued assms drained show ?thesis by (auto split: prod.splits)
  next
    case False
    with Queued assms stuck show ?thesis by auto
  qed
next
  case WriteThrows
  with assms thrown show ?thesis by auto
qed

lemma relay_loop_body:
  "relay_loop w src n r = (x, r', tr) \<Longrightarrow> sentBody r' = sentBody r @ concat (written_chunks tr)"
proof (induction src arbitrary: n r x r' tr)
  case Nil
  then show ?case by auto
next
  case (Cons a src)
  show ?case
  proof (cases a)
    case (Chunk c)
    with Cons.prems have run: "relay_loop w (Chunk c # src) n r = (x, r', tr)" by simp
    from run show ?thesis
    proof (cases rule: relay_loop_Chunk_cases)
      case (flushed tr1)
      with Cons.IH[OF flushed(2)] show ?thesis by (simp add: res_write_def)
    next
      case (drained tr1)
      with Cons.IH[OF drained(2)] show ?thesis by (simp add: res_write_def)
    next
      case stuck
      then show ?thesis by (simp add: res_write_def)
    next
      case thrown
      then show ?thesis by simp
    qed
  next
    case Done
    with Cons.prems show ?thesis by auto
  next
    case ReadError
    with Cons.prems show ?thesis by auto
  qed
qed

lemma relay_loop_waits:
  "relay_loop w src n r = (x, r', tr) \<Longrightarrow> reads_wait_for_drain False tr"
proof (induction src arbitrary: n r x r' tr)
  case Nil
  then show ?case by auto
next
  case (Cons a src)
  show ?case
  proof (cases a)
    case (Chunk c)
    with Cons.prems have run: "relay_loop w (Chunk c # src) n r = (x, r', tr)" by simp
    from run show ?thesis
    proof (cases rule: relay_loop_Chunk_cases)
      case (flushed tr1)
      with Cons.IH[OF flushed(2)] show ?thesis by simp
    next
      case (drained tr1)
      with Cons.IH[OF drained(2)] show ?thesis by simp
    next
      case stuck
      then show ?thesis by simp
    next
      case thrown
      then show ?thesis by simp
    qed
  next
    case Done
    with Cons.prems show ?thesis by auto
  next
    case ReadError
    with Cons.prems show ?thesis by auto
  qed
qed

lemma relay_loop_peak:
  "relay_loop w src n r = (x, r', tr) \<Longrightarrow> peak_held 0 tr \<le> 1"
proof (induction src arbitrary: n r x r' tr)
  case Nil
  then show ?case by auto
next
  case (Cons a src)
  show ?case
  proof (cases a)
    case (Chunk c)
    with Cons.prems have run: "relay_loop w (Chunk c # src) n r = (x, r', tr)" by simp
    from run show ?thesis
    proof (cases rule: relay_loop_Chunk_cases)
      case (flushed tr1)
      with Cons.IH[OF flushed(2)] show ?thesis by simp
    next
      case (drained tr1)
      with Cons.IH[OF drained(2)] show ?thesis by simp
    next
      case stuck
      then show ?thesis by simp
    next
      case thrown
      then show ?thesis by simp
    qed
  next
    case Done
    with Cons.prems show ?thesis by auto
  next
    case ReadError
    with Cons.prems show ?thesis by auto
  qed
qed

lemma relay_loop_in_order:
  "relay_loop w src n r = (x, r', tr) \<Longrightarrow>
     written_chunks tr = take (length (written_chunks tr)) (read_chunks tr)
     \<and> length (read_chunks tr) \<le> Suc (length (written_chunks tr))
     \<and> (x = Broke \<longrightarrow> written_chunks tr = read_chunks tr)"
proof (induction src arbitrary: n r x r' tr)
  case Nil
  then show ?case by auto
next
  case (Cons a src)
  show ?case
  proof (cases a)
    case (Chunk c)
    with Cons.prems have run: "relay_loop w (Chunk c # src) n r = (x, r', tr)" by simp
    from run show ?thesis
    proof (cases rule: relay_loop_Chunk_cases)
      case (flushed tr1)
      with Cons.IH[OF flushed(2)] show ?thesis by simp
    next
      case (drained tr1)
      with Cons.IH[OF drained(2)] show ?thesis by simp
    next
      case stuck
      then show ?thesis by simp
    next
      case thrown
      then show ?thesis by simp
    qed
  next
    case Done
    with Cons.prems show ?thesis by auto
  next
    case ReadError
    with Cons.prems show ?thesis by auto
  qed
qed

lemma relay_loop_success:
  assumes "\<forall>i < length cs. w (n + i) = Flushed \<or> w (n + i) = Queued True"
  shows "\<exists>r' tr. relay_loop w (map Chunk cs @ Done # rest) n r = (Broke, r', tr)
           \<and> read_chunks tr = cs"
  using assms
proof (induction cs arbitrary: n r)
  case Nil
  then show ?case by simp
next
  case (Cons c cs)
  have w0: "w n = Flushed \<or> w n = Queued True" using Cons.prems by force
  have "\<forall>i < length cs. w (Suc n + i) = Flushed \<or> w (Suc n + i) = Queued True"
    using Cons.prems by force
  from Cons.IH[OF this, of "res_write c r"] obtain r' tr where
    "relay_loop w (map Chunk cs @ Done # rest) (Suc n) (res_write c r) = (Broke, r', tr)"
    "read_chunks tr = cs" by blast
  with w0 show ?case by auto
qed

lemma relay_loop_frame:
  "relay_loop w src n r = (x, r', tr) \<Longrightarrow>
     sentJson r' = sentJson r \<and> statusCode r' = statusCode r \<and> resHeaders r' = resHeaders r"
proof (induction src arbitrary: n r x r' tr)
  case Nil
  then show ?case by auto
next
  case (Cons a src)
  show ?case
  proof (cases a)
    case (Chunk c)
    with Cons.prems have run: "relay_loop w (Chunk c # src) n r = (x, r', tr)" by simp
    from run show ?thesis
    proof (cases rule: relay_loop_Chunk_cases)
      case (flushed tr1)
      with Cons.IH[OF flushed(2)] show ?thesis by (simp add: res_write_def)
    next
      case (drained tr1)
      with Cons.IH[OF drained(2)] show ?thesis by (simp add: res_write_def)
    next
      case stuck
      then show ?thesis by (simp add: res_write_def)
    next
      case thrown
      then show ?thesis by simp
    qed
  next
    case Done
    with Cons.prems show ?thesis by auto
  next
    case ReadError
    with Cons.prems show ?thesis by auto
  qed
qed

lemma reads_wait_for_drain_end:
  "reads_wait_for_drain b (tr @ [EvEnd, EvReleaseLock]) = reads_wait_for_drain b tr"
  by (induction b tr rule: reads_wait_for_drain.induct) auto

lemma peak_held_end: "peak_held h (tr @ [EvEnd, EvReleaseLock]) = peak_held h tr"
  by (induction tr arbitrary: h) auto

lemma written_chunks_append: "written_chunks (a @ b) = written_chunks a @ written_chunks b"
  by (induction a rule: written_chunks.induct) auto

lemma read_chunks_append: "read_chunks (a @ b) = read_chunks a @ read_chunks b"
  by (induction a rule: read_chunks.induct) auto

lemma writes_succeed_iff:
  "writes_succeed w k = (\<forall>i < k. w i = Flushed \<or> w i = Queued True)"
  by (auto simp: writes_succeed_def list_all_iff)

lemma readStream_success:
  assumes "writes_succeed w (length cs)"
  shows "sentBody (conn (readStream w (map Chunk cs @ Done # rest) s)) = sentBody (conn s) @ concat cs
       \<and> written_chunks (trace (readStream w (map Chunk cs @ Done # rest) s)) = written_chunks (trace s) @ cs
       \<and> read_chunks (trace (readStream w (map Chunk cs @ Done # rest) s)) = read_chunks (trace s) @ cs
       \<and> writableEnded (conn (readStream w (map Chunk cs @ Done # rest) s))
       \<and> sentJson (conn (readStream w (map Chunk cs @ Done # rest) s)) = sentJson (conn s)
       \<and> statusCode (conn (readStream w (map Chunk cs @ Done # rest) s)) = statusCode (conn s)
       \<and> settled (readStream w (map Chunk cs @ Done # rest) s) = settled s"
proof -
  have "\<forall>i < length cs. w (0 + i) = Flushed \<or> w (0 + i) = Queued True"
    using assms by (simp add: writes_succeed_iff)
  from relay_loop_success[OF this, of rest "conn s"] obtain r' tr where
    run: "relay_loop w (map Chunk cs @ Done # rest) 0 (conn s) = (Broke, r', tr)"
    and rd: "read_chunks tr = cs" by blast
  have wr: "written_chunks tr = cs" using relay_loop_in_order[OF run] rd by simp
  have bd: "sentBody r' = sentBody (conn s) @ concat cs" using relay_loop_body[OF run] wr by simp
  show ?thesis
    using run bd wr rd relay_loop_frame[OF run]
    by (simp add: readStream_def end'_def written_chunks_append read_chunks_append)
qed

text \<open>
  C1: when the request is valid, the backend call resolves with a body that yields the
  chunks \<open>cs\<close> and then reports done, and no write throws or stays undrained, the
  bytes sent to the client are the concatenation of \<open>cs\<close>; the chunks written are
  \<open>cs\<close>, each once and in the order read; nothing else is sent as a body, and the
  response is ended.
\<close>

theorem streamed_body_relayed_verbatim:
  assumes "chatRequestSchema em input = Inr d"
    and "fetch (backend_request e d) = Resolved response"
    and "fbody response = Some (map Chunk cs @ Done # rest)"
    and "writes_succeed w (length cs)"
  shows "sentBody (conn (chat em e fetch w input (new_session fresh_res))) = concat cs
       \<and> written_chunks (trace (chat em e fetch w input (new_session fresh_res))) = cs
       \<and> read_chunks (trace (chat em e fetch w input (new_session fresh_res))) = cs
       \<and> sentJson (conn (chat em e fetch w input (new_session fresh_res))) = None
       \<and> statusCode (conn (chat em e fetch w input (new_session fresh_res))) = fstatus response
       \<and> writableEnded (conn (chat em e fetch w input (new_session fresh_res)))
       \<and> settled (chat em e fetch w input (new_session fresh_res))"
proof -
  define r3 where "r3 = forward_headers response
     (if stream d then res_setHeader ''X-Accel-Buffering'' ''no'' (status (fstatus response) fresh_res)
      else status (fstatus response) fresh_res)"
  define s2 where "s2 = (new_session fresh_res)\<lparr>calls := [backend_request e d], conn := r3, readerLocked := True\<rparr>"
  have fw: "\<And>r. sentBody (forward_headers response r) = sentBody r
      \<and> sentJson (forward_headers response r) = sentJson r
      \<and> statusCode (forward_headers response r) = statusCode r"
    by (simp add: forward_headers_def headersToForward_def forward_one_def res_setHeader_def
        split: option.splits)
  have r3: "sentBody r3 = [] \<and> sentJson r3 = None \<and> statusCode r3 = fstatus response"
    by (simp add: r3_def fw res_setHeader_def status_def fresh_res_def)
  have run: "chat em e fetch w input (new_session fresh_res) = readStream w (map Chunk cs @ Done # rest) s2"
    using assms(1-3) by (simp add: chat_def Let_def s2_def r3_def new_session_def)
  have s2: "conn s2 = r3 \<and> trace s2 = [] \<and> settled s2"
    by (simp add: s2_def new_session_def)
  show ?thesis
    using readStream_success[OF assms(4), of rest s2] r3 s2 by (simp add: run)
qed

theorem streamed_body_relayed_verbatim_witness:
  "chatRequestSchema em0 body_hi = Inr \<lparr>messages = [\<lparr>role = ''user'', content = ''hi''\<rparr>], stream = False\<rparr>
   \<and> fbody response_ok = Some (map Chunk [[1, 2], [3]] @ Done # [])
   \<and> writes_succeed sink_ok 2
   \<and> sentBody (conn (chat em0 env0 backend_ok sink_ok body_hi (new_session fresh_res))) = [1, 2, 3]
   \<and> written_chunks (trace (chat em0 env0 backend_ok sink_ok body_hi (new_session fresh_res))) = [[1, 2], [3]]
   \<and> statusCode (conn (chat em0 env0 backend_ok sink_ok body_hi (new_session fresh_res))) = 200"
proof -
  have v: "chatRequestSchema em0 body_hi = Inr \<lparr>messages = [\<lparr>role = ''user'', content = ''hi''\<rparr>], stream = False\<rparr>"
    by (simp add: chatRequestSchema_def body_hi_def jprop_def parse_messages_def messageSchema_def
        parse_role_def parse_content_def parse_stream_def issues_of_def Let_def)
  have f: "backend_ok (backend_request env0 \<lparr>messages = [\<lparr>role = ''user'', content = ''hi''\<rparr>], stream = False\<rparr>)
      = Resolved response_ok"
    by (simp add: backend_ok_def)
  have b: "fbody response_ok = Some (map Chunk [[1, 2], [3]] @ Done # [])"
    by (simp add: response_ok_def)
  have w: "writes_succeed sink_ok (length [[1, 2], [3 :: byte]])"
    by (simp add: writes_succeed_def sink_ok_def upt_rec)
  have w2: "writes_succeed sink_ok 2"
    using w by (simp add: numeral_2_eq_2)
  show ?thesis
    using streamed_body_relayed_verbatim[where fetch = backend_ok and e = env0 and rest = "[]", OF v f b w] v b w2
    by (simp add: response_ok_def)
qed

text \<open>
  C4: in every run of the relay, whatever the stream yields and whatever the writes do,
  no read happens between a write that returned \<open>false\<close> and the \<open>drain\<close> that follows
  it, and at no point does the relay hold more than one chunk.
\<close>

theorem relay_waits_for_drain_before_reading:
  "reads_wait_for_drain False (trace (readStream w src (new_session r)))
   \<and> peak_held 0 (trace (readStream w src (new_session r))) \<le> 1"
proof -
  obtain x r' tr where run: "relay_loop w src 0 r = (x, r', tr)"
    by (cases "relay_loop w src 0 r") auto
  have a: "reads_wait_for_drain False tr" using relay_loop_waits[OF run] .
  have b: "peak_held 0 tr \<le> 1" using relay_loop_peak[OF run] .
  show ?thesis
    using run a b
    by (cases x) (simp_all add: readStream_def new_session_def reads_wait_for_drain_end peak_held_end)
qed

text \<open>The two checks are not idle: a read before the drain, and two chunks held, are refused.\<close>

lemma reads_wait_for_drain_refuses:
  "\<not> reads_wait_for_drain False [EvRead (Chunk c), EvWrite c False, EvWaitDrain, EvRead (Chunk c'), EvDrain]"
  by simp

lemma peak_held_counts: "peak_held 0 [EvRead (Chunk c), EvRead (Chunk c'), EvWrite c True] = 2"
  by simp

text \<open>When the loop is left: the stream reports done, a read rejects, or a write throws.\<close>

lemma relay_loop_read_error:
  assumes "writes_succeed w (length cs)"
  shows "fst (relay_loop w (map Chunk cs @ ReadError # rest) 0 r) = Threw"
proof -
  have "\<forall>i < length cs. w (n + i) = Flushed \<or> w (n + i) = Queued True \<Longrightarrow>
      fst (relay_loop w (map Chunk cs @ ReadError # rest) n r) = Threw" for n
  proof (induction cs arbitrary: n r)
    case Nil
    then show ?case by simp
  next
    case (Cons c cs)
    have w0: "w n = Flushed \<or> w n = Queued True" using Cons.prems by force
    have "\<forall>i < length cs. w (Suc n + i) = Flushed \<or> w (Suc n + i) = Queued True"
      using Cons.prems by force
    from Cons.IH[OF this, of "res_write c r"] w0 show ?case
      by (auto split: prod.splits)
  qed
  from this[of 0] assms show ?thesis by (simp add: writes_succeed_iff)
qed

lemma relay_loop_write_error:
  assumes "writes_succeed w (length cs)" and "w (length cs) = WriteThrows"
  shows "fst (relay_loop w (map Chunk cs @ Chunk c # rest) 0 r) = Threw"
proof -
  have "\<forall>i < length cs. w (n + i) = Flushed \<or> w (n + i) = Queued True \<Longrightarrow>
      w (n + length cs) = WriteThrows \<Longrightarrow>
      fst (relay_loop w (map Chunk cs @ Chunk c # rest) n r) = Threw" for n
  proof (induction cs arbitrary: n r)
    case Nil
    then show ?case by simp
  next
    case (Cons a cs)
    have w0: "w n = Flushed \<or> w n = Queued True" using Cons.prems(1) by force
    have rest: "\<forall>i < length cs. w (Suc n + i) = Flushed \<or> w (Suc n + i) = Queued True"
      using Cons.prems(1) by force
    have last: "w (Suc n + length cs) = WriteThrows" using Cons.prems(2) by simp
    from Cons.IH[OF rest last, of "res_write a r"] w0 show ?case
      by (auto split: prod.splits)
  qed
  from this[of 0] assms show ?thesis by (simp add: writes_succeed_iff)
qed

text \<open>
  C5: on every path on which the relay loop is left (the stream reported done, or a read
  or a write failed), \<open>res.end()\<close> has been called and the reader's lock is released:
  they are the last two things the relay does.
\<close>

theorem relay_exit_ends_and_releases:
  assumes "fst (relay_loop w src 0 (conn s)) = Broke \<or> fst (relay_loop w src 0 (conn s)) = Threw"
  shows "writableEnded (conn (readStream w src s))
       \<and> \<not> readerLocked (readStream w src s)
       \<and> drop (length (trace (readStream w src s)) - 2) (trace (readStream w src s)) = [EvEnd, EvReleaseLock]
       \<and> settled (readStream w src s) = settled s"
proof -
  obtain x r' tr where run: "relay_loop w src 0 (conn s) = (x, r', tr)"
    by (cases "relay_loop w src 0 (conn s)") auto
  with assms have "x = Broke \<or> x = Threw" by simp
  then show ?thesis
    using run by (auto simp: readStream_def end'_def json_send_def)
qed

theorem relay_exit_ends_and_releases_witness:
  "fst (relay_loop sink_breaks two_chunks 0 (conn relaying)) = Threw
   \<and> readerLocked relaying
   \<and> writableEnded (conn (readStream sink_breaks two_chunks relaying))
   \<and> \<not> readerLocked (readStream sink_breaks two_chunks relaying)
   \<and> sentBody (conn (readStream sink_breaks two_chunks relaying)) = [1, 2]"
proof -
  have x: "fst (relay_loop sink_breaks two_chunks 0 (conn relaying)) = Threw"
    by (simp add: sink_breaks_def two_chunks_def)
  have b: "sentBody (conn (readStream sink_breaks two_chunks relaying)) = [1, 2]"
    by (simp add: readStream_def sink_breaks_def two_chunks_def relaying_def res_write_def
        fresh_res_def end'_def)
  have "fst (relay_loop sink_breaks two_chunks 0 (conn relaying)) = Broke
      \<or> fst (relay_loop sink_breaks two_chunks 0 (conn relaying)) = Threw"
    using x by simp
  from relay_exit_ends_and_releases[OF this] x b show ?thesis
    by (simp add: relaying_def)
qed

section \<open>The handler\<close>

lemma body_hi_valid: "chatRequestSchema em body_hi = Inr request_hi"
  by (simp add: chatRequestSchema_def body_hi_def jprop_def parse_messages_def messageSchema_def
      parse_role_def parse_content_def parse_stream_def issues_of_def Let_def request_hi_def)

lemma readStream_calls: "calls (readStream w src s) = calls s"
  by (cases "relay_loop w src 0 (conn s)" rule: prod_cases3)
     (auto simp: readStream_def split: loop_exit.splits)

text \<open>
  C7: when the backend call rejects and nothing has been sent yet, an abort is answered
  with status 499 and no body at all, every other failure with status 502 and a JSON
  error body.
\<close>

theorem aborted_call_gets_499_without_body:
  assumes "chatRequestSchema em input = Inr d"
    and "fetch (backend_request e d) = Rejected err"
    and "\<not> headersSent (conn s)"
  shows "statusCode (conn (chat em e fetch w input s)) = (if isAbortError err then 499 else 502)
       \<and> sentJson (conn (chat em e fetch w input s))
           = (if isAbortError err then sentJson (conn s)
              else Some (JObj [(''error'', JStr ''Failed to connect to Ollama'')]))
       \<and> sentBody (conn (chat em e fetch w input s)) = sentBody (conn s)
       \<and> writableEnded (conn (chat em e fetch w input s))"
  using assms
  by (simp add: chat_def Let_def end'_def status_def json_send_def)

theorem aborted_call_gets_499_without_body_witness:
  "chatRequestSchema em0 body_hi = Inr request_hi
   \<and> isAbortError (ErrorNamed ''AbortError'') \<and> \<not> isAbortError (ErrorNamed ''TypeError'')
   \<and> \<not> headersSent (conn (new_session fresh_res))
   \<and> statusCode (conn (chat em0 env0 backend_aborted sink_ok body_hi (new_session fresh_res))) = 499
   \<and> sentJson (conn (chat em0 env0 backend_aborted sink_ok body_hi (new_session fresh_res))) = None
   \<and> sentBody (conn (chat em0 env0 backend_aborted sink_ok body_hi (new_session fresh_res))) = []
   \<and> statusCode (conn (chat em0 env0 backend_down sink_ok body_hi (new_session fresh_res))) = 502
   \<and> sentJson (conn (chat em0 env0 backend_down sink_ok body_hi (new_session fresh_res)))
       = Some (JObj [(''error'', JStr ''Failed to connect to Ollama'')])"
proof -
  have a: "backend_aborted (backend_request env0 request_hi) = Rejected (ErrorNamed ''AbortError'')"
    by (simp add: backend_aborted_def)
  have b: "backend_down (backend_request env0 request_hi) = Rejected (ErrorNamed ''TypeError'')"
    by (simp add: backend_down_def)
  have h: "\<not> headersSent (conn (new_session fresh_res))"
    by (simp add: new_session_def fresh_res_def)
  show ?thesis
    using aborted_call_gets_499_without_body[where fetch = backend_aborted and e = env0 and w = sink_ok,
        OF body_hi_valid a h]
      aborted_call_gets_499_without_body[where fetch = backend_down and e = env0 and w = sink_ok,
        OF body_hi_valid b h]
      body_hi_valid[of em0] h
    by (simp add: isAbortError_def new_session_def fresh_res_def)
qed

lemma map_of_setHeader: "map_of (setHeader h v hs) k = (if k = h then Some v else map_of hs k)"
  by (induction h v hs rule: setHeader.induct) auto

lemma forward_one_header:
  "map_of (resHeaders (forward_one response r a)) h =
     (if h = a \<and> (\<exists>v. map_of (fheaders response) a = Some v \<and> v \<noteq> [])
      then map_of (fheaders response) a else map_of (resHeaders r) h)"
  by (auto simp: forward_one_def res_setHeader_def map_of_setHeader split: option.splits)

lemma foldl_forward_one:
  "map_of (resHeaders (foldl (forward_one response) r hs)) h =
     (if h \<in> set hs \<and> (\<exists>v. map_of (fheaders response) h = Some v \<and> v \<noteq> [])
      then map_of (fheaders response) h
      else map_of (resHeaders r) h)"
proof (induction hs arbitrary: r)
  case Nil
  then show ?case by simp
next
  case (Cons a hs)
  show ?case
    unfolding foldl_Cons Cons.IH forward_one_header by auto
qed

text \<open>
  C8, as the code has it: after the backend's headers have been forwarded, a header of
  the response to the client carries the backend's value exactly when its name is
  \<open>content-type\<close>, \<open>transfer-encoding\<close>, \<open>cache-control\<close> or \<open>content-encoding\<close> and the
  backend sent it with a non-empty value; every other header of the response is as it
  was, whatever the backend sent under that name.
\<close>

theorem allow_listed_nonempty_headers_forwarded:
  "map_of (resHeaders (forward_headers response r)) h =
     (if (h = ''content-type'' \<or> h = ''transfer-encoding'' \<or> h = ''cache-control''
            \<or> h = ''content-encoding'')
         \<and> (\<exists>v. map_of (fheaders response) h = Some v \<and> v \<noteq> [])
      then map_of (fheaders response) h
      else map_of (resHeaders r) h)"
proof -
  have "map_of (resHeaders (forward_headers response r)) h =
     (if h \<in> set [''content-type'', ''transfer-encoding'', ''cache-control'', ''content-encoding'']
         \<and> (\<exists>v. map_of (fheaders response) h = Some v \<and> v \<noteq> [])
      then map_of (fheaders response) h
      else map_of (resHeaders r) h)"
    unfolding forward_headers_def headersToForward_def by (rule foldl_forward_one)
  then show ?thesis by simp
qed

theorem allow_listed_nonempty_headers_forwarded_witness:
  "map_of (fheaders response_ok) ''content-type'' = Some ''application/x-ndjson''
   \<and> map_of (resHeaders (forward_headers response_ok fresh_res)) ''content-type''
       = Some ''application/x-ndjson''
   \<and> map_of (fheaders response_ok) ''date'' = Some ''Mon, 02 Nov 2026''
   \<and> map_of (resHeaders (forward_headers response_ok fresh_res)) ''date'' = None
   \<and> map_of (resHeaders (forward_headers response_ok fresh_res)) ''transfer-encoding'' = None"
proof -
  have ct: "map_of (fheaders response_ok) ''content-type'' = Some ''application/x-ndjson''"
    by (simp add: response_ok_def)
  have dt: "map_of (fheaders response_ok) ''date'' = Some ''Mon, 02 Nov 2026''"
    by (simp add: response_ok_def)
  have te: "map_of (fheaders response_ok) ''transfer-encoding'' = None"
    by (simp add: response_ok_def)
  have none: "map_of (resHeaders fresh_res) h = None" for h
    by (simp add: fresh_res_def)
  show ?thesis
    using allow_listed_nonempty_headers_forwarded[of response_ok fresh_res "''content-type''"]
      allow_listed_nonempty_headers_forwarded[of response_ok fresh_res "''date''"]
      allow_listed_nonempty_headers_forwarded[of response_ok fresh_res "''transfer-encoding''"]
      ct dt te none
    by simp
qed

text \<open>
  The claim as the specification states it (an allow-listed header is forwarded when it
  is present on the backend's response) fails: the backend's response carries
  \<open>cache-control\<close> with an empty value, the name is on the allow-list, and the response
  to the client has no such header.
\<close>

theorem empty_header_not_forwarded_counterexample:
  "''cache-control'' \<in> set headersToForward
   \<and> map_of (fheaders response_ok) ''cache-control'' = Some []
   \<and> map_of (resHeaders (forward_headers response_ok fresh_res)) ''cache-control'' = None
   \<and> resHeaders (conn (chat em0 env0 backend_ok sink_ok body_hi (new_session fresh_res)))
       = [(''content-type'', ''application/x-ndjson'')]"
proof -
  have fw: "forward_headers response_ok fresh_res
      = fresh_res\<lparr>resHeaders := [(''content-type'', ''application/x-ndjson'')]\<rparr>"
    by (simp add: forward_headers_def headersToForward_def forward_one_def response_ok_def
        res_setHeader_def fresh_res_def)
  have run: "chat em0 env0 backend_ok sink_ok body_hi (new_session fresh_res)
      = readStream sink_ok [Chunk [1, 2], Chunk [3], Done]
          ((new_session fresh_res)\<lparr>calls := [backend_request env0 request_hi],
             conn := forward_headers response_ok (status 200 fresh_res), readerLocked := True\<rparr>)"
    by (simp add: chat_def Let_def body_hi_valid backend_ok_def request_hi_def new_session_def
        response_ok_def)
  have st: "status 200 fresh_res = fresh_res"
    by (simp add: status_def fresh_res_def)
  have hs: "resHeaders (conn (chat em0 env0 backend_ok sink_ok body_hi (new_session fresh_res)))
      = [(''content-type'', ''application/x-ndjson'')]"
    unfolding run st fw
    by (simp add: readStream_def sink_ok_def res_write_def end'_def new_session_def fresh_res_def)
  have listed: "''cache-control'' \<in> set headersToForward"
    by (simp add: headersToForward_def)
  have sent: "map_of (fheaders response_ok) ''cache-control'' = Some []"
    by (simp add: response_ok_def)
  have dropped: "map_of (resHeaders (forward_headers response_ok fresh_res)) ''cache-control'' = None"
    unfolding fw by (simp add: fresh_res_def)
  show ?thesis
    using listed sent dropped hs by simp
qed

lemma forward_headers_frame:
  "sentBody (forward_headers response r) = sentBody r
   \<and> sentJson (forward_headers response r) = sentJson r
   \<and> statusCode (forward_headers response r) = statusCode r
   \<and> headersSent (forward_headers response r) = headersSent r
   \<and> writableEnded (forward_headers response r) = writableEnded r"
  by (simp add: forward_headers_def headersToForward_def forward_one_def res_setHeader_def
      split: option.splits)

text \<open>
  C9: a valid request makes exactly one call to the backend: a POST to \<open>/api/chat\<close>
  under the base URL, whose body is \<open>{model, messages, stream, keep_alive: -1}\<close>. The
  messages (each with its role and content only) and the flag are those of the validated
  request. The base URL is \<open>OLLAMA_URL\<close> and the model is \<open>OLLAMA_MODEL\<close>; each is
  replaced by its default, \<open>http://localhost:11434\<close> and \<open>nemotron-3-nano\<close>, when the
  variable is unset or empty.
\<close>

theorem backend_call_shape:
  assumes "chatRequestSchema em input = Inr d"
  shows "calls (chat em e fetch w input s) = calls s @
     [\<lparr>url = (case OLLAMA_URL e of
                 None \<Rightarrow> ''http://localhost:11434''
               | Some u \<Rightarrow> if u = [] then ''http://localhost:11434'' else u) @ ''/api/chat'',
       reqMethod = ''POST'',
       reqHeaders = [(''Content-Type'', ''application/json'')],
       reqBody = JObj [(''model'', JStr (case OLLAMA_MODEL e of
                                            None \<Rightarrow> ''nemotron-3-nano''
                                          | Some m \<Rightarrow> if m = [] then ''nemotron-3-nano'' else m)),
                       (''messages'', JArr (map (\<lambda>m. JObj [(''role'', JStr (role m)),
                                                               (''content'', JStr (content m))])
                                                (messages d))),
                       (''stream'', JBool (stream d)),
                       (''keep_alive'', JNum (- 1))]\<rparr>]"
proof -
  have mj: "message_json = (\<lambda>m. JObj [(''role'', JStr (role m)), (''content'', JStr (content m))])"
    by (rule ext) (simp add: message_json_def)
  have "calls (chat em e fetch w input s) = calls s @ [backend_request e d]"
    using assms
    by (simp add: chat_def Let_def readStream_calls split: fetch_outcome.splits option.splits)
  then show ?thesis
    by (simp add: backend_request_def or_default_def mj split: option.splits)
qed

theorem backend_call_shape_witness:
  "chatRequestSchema em0 body_hi = Inr request_hi
   \<and> calls (chat em0 env_set backend_ok sink_ok body_hi (new_session fresh_res)) =
     [\<lparr>url = ''http://ollama:11434/api/chat'',
       reqMethod = ''POST'',
       reqHeaders = [(''Content-Type'', ''application/json'')],
       reqBody = JObj [(''model'', JStr ''llama3''),
                       (''messages'', JArr [JObj [(''role'', JStr ''user''), (''content'', JStr ''hi'')]]),
                       (''stream'', JBool False),
                       (''keep_alive'', JNum (- 1))]\<rparr>]
   \<and> calls (chat em0 env0 backend_ok sink_ok body_hi (new_session fresh_res)) =
     [\<lparr>url = ''http://localhost:11434/api/chat'',
       reqMethod = ''POST'',
       reqHeaders = [(''Content-Type'', ''application/json'')],
       reqBody = JObj [(''model'', JStr ''nemotron-3-nano''),
                       (''messages'', JArr [JObj [(''role'', JStr ''user''), (''content'', JStr ''hi'')]]),
                       (''stream'', JBool False),
                       (''keep_alive'', JNum (- 1))]\<rparr>]"
  using backend_call_shape[OF body_hi_valid, of em0 env_set backend_ok sink_ok "new_session fresh_res"]
    backend_call_shape[OF body_hi_valid, of em0 env0 backend_ok sink_ok "new_session fresh_res"]
    body_hi_valid[of em0]
  by (simp add: env0_def env_set_def request_hi_def new_session_def)

lemma chatRequestSchema_two_fields:
  assumes "jprop (JObj ps) ''messages'' = jprop (JObj qs) ''messages''"
    and "jprop (JObj ps) ''stream'' = jprop (JObj qs) ''stream''"
  shows "chatRequestSchema em (JObj ps) = chatRequestSchema em (JObj qs)"
  using assms by (simp add: chatRequestSchema_def)

lemma messageSchema_two_fields:
  assumes "jprop (JObj ps) ''role'' = jprop (JObj qs) ''role''"
    and "jprop (JObj ps) ''content'' = jprop (JObj qs) ''content''"
  shows "messageSchema em p (JObj ps) = messageSchema em p (JObj qs)"
  using assms by (simp add: messageSchema_def)

text \<open>
  C10: two requests with the same \<open>Authorization\<close> header whose bodies are objects
  with the same \<open>messages\<close> and the same \<open>stream\<close>, whatever other properties each has,
  have the same session: the same calls to the backend with the same bodies, and the
  same response.
\<close>

theorem extra_fields_do_not_reach_backend:
  assumes "jprop (JObj ps) ''messages'' = jprop (JObj qs) ''messages''"
    and "jprop (JObj ps) ''stream'' = jprop (JObj qs) ''stream''"
  shows "post_chat em e fetch w now \<lparr>authorization = a, body = JObj ps\<rparr> db
       = post_chat em e fetch w now \<lparr>authorization = a, body = JObj qs\<rparr> db"
proof -
  have "chat em e fetch w (JObj ps) s = chat em e fetch w (JObj qs) s" for s
    by (simp add: chat_def chatRequestSchema_two_fields[OF assms])
  then show ?thesis
    by (simp add: post_chat_def split: prod.splits)
qed

theorem extra_fields_do_not_reach_backend_witness:
  "jprop body_hi ''messages'' = jprop body_hi_model ''messages''
   \<and> jprop body_hi ''stream'' = jprop body_hi_model ''stream''
   \<and> jprop body_hi ''model'' \<noteq> jprop body_hi_model ''model''
   \<and> post_chat em0 env0 backend_ok sink_ok 7 \<lparr>authorization = Some ''Bearer live789'', body = body_hi\<rparr> store_ok
     = post_chat em0 env0 backend_ok sink_ok 7 \<lparr>authorization = Some ''Bearer live789'', body = body_hi_model\<rparr> store_ok"
proof -
  have m: "jprop body_hi ''messages'' = jprop body_hi_model ''messages''"
    by (simp add: body_hi_def body_hi_model_def jprop_def)
  have s: "jprop body_hi ''stream'' = jprop body_hi_model ''stream''"
    by (simp add: body_hi_def body_hi_model_def jprop_def)
  have d: "jprop body_hi ''model'' \<noteq> jprop body_hi_model ''model''"
    by (simp add: body_hi_def body_hi_model_def jprop_def)
  show ?thesis
    using extra_fields_do_not_reach_backend[OF m[unfolded body_hi_def body_hi_model_def]
        s[unfolded body_hi_def body_hi_model_def], of em0 env0 backend_ok sink_ok 7 "Some ''Bearer live789''" store_ok]
      m s d
    by (simp add: body_hi_def body_hi_model_def)
qed

text \<open>The model named in the call is the configured one, whatever the body says.\<close>

lemma model_from_configuration:
  "map reqBody (calls (chat em0 env0 backend_aborted sink_ok body_hi_model (new_session fresh_res)))
     = [JObj [(''model'', JStr ''nemotron-3-nano''),
              (''messages'', JArr [JObj [(''role'', JStr ''user''), (''content'', JStr ''hi'')]]),
              (''stream'', JBool False),
              (''keep_alive'', JNum (- 1))]]"
proof -
  have "chatRequestSchema em0 body_hi_model = Inr request_hi"
    by (simp add: chatRequestSchema_def body_hi_model_def jprop_def parse_messages_def messageSchema_def
        parse_role_def parse_content_def parse_stream_def issues_of_def Let_def request_hi_def)
  then show ?thesis
    by (simp add: chat_def Let_def backend_request_def backend_aborted_def isAbortError_def
        new_session_def fresh_res_def env0_def or_default_def request_hi_def message_json_def)
qed

text \<open>
  The same for the whole handler when the body is relayed to its end: the headers the
  handler has set are the allow-listed non-empty headers of the backend, its own
  \<open>X-Accel-Buffering\<close> for a streaming request, and what was set before.
\<close>

lemma chat_response_headers:
  assumes "chatRequestSchema em input = Inr d"
    and "fetch (backend_request e d) = Resolved response"
    and "fbody response = Some (map Chunk cs @ Done # rest)"
    and "writes_succeed w (length cs)"
  shows "map_of (resHeaders (conn (chat em e fetch w input s))) h =
     (if (h = ''content-type'' \<or> h = ''transfer-encoding'' \<or> h = ''cache-control''
            \<or> h = ''content-encoding'')
         \<and> (\<exists>v. map_of (fheaders response) h = Some v \<and> v \<noteq> [])
      then map_of (fheaders response) h
      else if stream d \<and> h = ''X-Accel-Buffering'' then Some ''no''
      else map_of (resHeaders (conn s)) h)"
proof -
  define r2 where "r2 = (if stream d then res_setHeader ''X-Accel-Buffering'' ''no''
        (status (fstatus response) (conn s)) else status (fstatus response) (conn s))"
  define s2 where "s2 = s\<lparr>calls := calls s @ [backend_request e d],
      conn := forward_headers response r2, readerLocked := True\<rparr>"
  have pre: "map_of (resHeaders r2) h
      = (if stream d \<and> h = ''X-Accel-Buffering'' then Some ''no'' else map_of (resHeaders (conn s)) h)"
    by (simp add: r2_def res_setHeader_def status_def map_of_setHeader)
  have run: "chat em e fetch w input s = readStream w (map Chunk cs @ Done # rest) s2"
    using assms(1-3) by (simp add: chat_def Let_def s2_def r2_def)
  have "\<forall>i < length cs. w (0 + i) = Flushed \<or> w (0 + i) = Queued True"
    using assms(4) by (simp add: writes_succeed_iff)
  from relay_loop_success[OF this, of rest "conn s2"] obtain r' tr where
    loop: "relay_loop w (map Chunk cs @ Done # rest) 0 (conn s2) = (Broke, r', tr)" by blast
  have "resHeaders (conn (readStream w (map Chunk cs @ Done # rest) s2)) = resHeaders (conn s2)"
    using loop relay_loop_frame[OF loop] by (simp add: readStream_def end'_def)
  then have "map_of (resHeaders (conn (chat em e fetch w input s))) h
      = map_of (resHeaders (foldl (forward_one response) r2
          [''content-type'', ''transfer-encoding'', ''cache-control'', ''content-encoding''])) h"
    by (simp add: run s2_def forward_headers_def headersToForward_def)
  also have "\<dots> = (if h \<in> set [''content-type'', ''transfer-encoding'', ''cache-control'', ''content-encoding'']
         \<and> (\<exists>v. map_of (fheaders response) h = Some v \<and> v \<noteq> [])
      then map_of (fheaders response) h else map_of (resHeaders r2) h)"
    by (rule foldl_forward_one)
  finally show ?thesis
    unfolding pre by simp
qed

section \<open>The request validator\<close>




lemma path_mk_issue [simp]: "path (mk_issue c p m) = p"
  by (simp add: mk_issue_def)

















text \<open>The specification's scenario: the body \<open>{"messages": []}\<close>.\<close>

lemma body_empty_rejected:
  "sentJson (conn (chat em0 env0 backend_ok sink_ok body_empty (new_session fresh_res)))
     = Some (JObj [(''error'', JStr ''Validation failed''),
          (''details'', JArr [JObj [(''field'', JStr ''messages''),
                                    (''message'', JStr ''At least one message is required'')]])])
   \<and> statusCode (conn (chat em0 env0 backend_ok sink_ok body_empty (new_session fresh_res))) = 400"
  by (simp add: chat_def chatRequestSchema_def body_empty_def jprop_def parse_messages_def
      parse_stream_def issues_of_def Let_def detail_def mk_issue_def show_seg_def
      json_send_def end'_def status_def new_session_def fresh_res_def)

text \<open>The messages the schemas give themselves reach the issue of the field they are about.\<close>

lemma no_message_reported:
  assumes "jprop (JObj ps) ''messages'' = JArr []"
  shows "mk_issue too_small [Key ''messages''] ''At least one message is required''
           \<in> set (issues_of (chatRequestSchema em (JObj ps)))"
  using assms
  by (simp add: chatRequestSchema_def parse_messages_def issues_of_def Let_def split: sum.splits)

lemma too_many_messages_reported:
  assumes "jprop (JObj ps) ''messages'' = JArr xs" and "100 < length xs"
  shows "mk_issue too_big [Key ''messages''] ''Too many messages (max 100)''
           \<in> set (issues_of (chatRequestSchema em (JObj ps)))"
  using assms
  by (simp add: chatRequestSchema_def parse_messages_def issues_of_def Let_def split: sum.splits)

end
